theory Spec2Isabelle
  imports Complex_Main
begin

section \<open>Python values and exceptions\<close>

text \<open>
  Both modules handle decoded JSON: what \<^verbatim>\<open>response.json()\<close> and \<^verbatim>\<open>json.load\<close>
  return. \<open>JNull\<close> is Python's \<^verbatim>\<open>None\<close>, a \<open>JObj\<close> is a \<^verbatim>\<open>dict\<close> in insertion
  order (a decoded dict has distinct keys), a \<open>JList\<close> a \<^verbatim>\<open>list\<close>. A finite float is
  kept as a rational; NaN and the infinities are left out.
\<close>

datatype json =
    JNull
  | JBool bool
  | JInt int
  | JFloat rat
  | JStr string
  | JList "json list"
  | JObj "(string \<times> json) list"

text \<open>The exceptions the two modules can meet.\<close>

datatype error =
    AttributeError
  | TypeError
  | ValueError
  | KeyError
  | OSError
  | JSONDecodeError
  | OverflowError
  | OperationalError
  | InterfaceError

text \<open>A call either returns or lets an exception escape.\<close>

datatype 'a outcome = Returned 'a | Raised error

text \<open>Python truth value: \<^verbatim>\<open>not plugins\<close>, \<^verbatim>\<open>if value\<close>.\<close>

fun truthy :: "json \<Rightarrow> bool" where
  "truthy JNull = False"
| "truthy (JBool b) = b"
| "truthy (JInt n) = (n \<noteq> 0)"
| "truthy (JFloat q) = (q \<noteq> 0)"
| "truthy (JStr s) = (s \<noteq> [])"
| "truthy (JList xs) = (xs \<noteq> [])"
| "truthy (JObj kvs) = (kvs \<noteq> [])"

text \<open>\<^verbatim>\<open>isinstance(plugins, list)\<close>.\<close>

fun is_list :: "json \<Rightarrow> bool" where
  "is_list (JList xs) = True"
| "is_list v = False"

text \<open>\<^verbatim>\<open>len(x)\<close>: defined on strings, lists and dicts, a TypeError elsewhere.\<close>

fun py_len :: "json \<Rightarrow> error + nat" where
  "py_len (JStr s) = Inr (length s)"
| "py_len (JList xs) = Inr (length xs)"
| "py_len (JObj kvs) = Inr (length kvs)"
| "py_len v = Inl TypeError"

text \<open>\<^verbatim>\<open>x.get(key, default)\<close>: only a dict has the method.\<close>

fun py_get :: "json \<Rightarrow> string \<Rightarrow> json \<Rightarrow> error + json" where
  "py_get (JObj kvs) key dflt = Inr (case map_of kvs key of None \<Rightarrow> dflt | Some v \<Rightarrow> v)"
| "py_get v key dflt = Inl AttributeError"

text \<open>
  Iterating a value (\<^verbatim>\<open>list.extend\<close>, \<^verbatim>\<open>str.join\<close>): a list yields its items, a
  string its characters as one-character strings, a dict its keys; the rest is not
  iterable.
\<close>

fun py_iter :: "json \<Rightarrow> error + json list" where
  "py_iter (JList xs) = Inr xs"
| "py_iter (JStr s) = Inr (map (\<lambda>c. JStr [c]) s)"
| "py_iter (JObj kvs) = Inr (map (\<lambda>kv. JStr (fst kv)) kvs)"
| "py_iter v = Inl TypeError"

section \<open>The crawler (marketplace\_crawler.py)\<close>

text \<open>
  What one HTTP request can come to: \<^verbatim>\<open>requests.get\<close> or \<^verbatim>\<open>raise_for_status\<close> raises a
  RequestException, \<^verbatim>\<open>response.json()\<close> raises a JSONDecodeError, or a payload is decoded.
\<close>

datatype response = TransportFailure | DecodeFailure | Payload json

text \<open>
  The remote marketplace: the reply to the request of loop iteration \<open>page\<close>, asked with
  \<open>offset\<close> and \<open>max\<close>. (The URL of \<^verbatim>\<open>_build_url\<close> carries nothing else that varies.)
\<close>

type_synonym remote = "nat \<Rightarrow> int \<Rightarrow> int \<Rightarrow> response"

datatype crawl_event =
    RequestError int
  | ParseError int
  | NoMorePlugins nat
  | EndOfResults nat
  | CrawledPage nat nat nat
  | SaveError nat

text \<open>
  The state \<^verbatim>\<open>crawl\<close> works on: its local \<^verbatim>\<open>total_plugins\<close>, the requests issued so far
  as (offset, max) pairs, the snapshot files \<^verbatim>\<open>plugins/page_<n>.json\<close> by page number, and
  the log lines.
\<close>

record crawl_state =
  total_plugins :: nat
  requested :: "(int \<times> int) list"
  saved :: "nat \<Rightarrow> json option"
  log :: "crawl_event list"

text \<open>
  \<^verbatim>\<open>_make_request\<close>: both failures are logged and turned into \<^verbatim>\<open>None\<close>.
\<close>

definition make_request ::
  "remote \<Rightarrow> nat \<Rightarrow> int \<Rightarrow> int \<Rightarrow> crawl_state \<Rightarrow> json \<times> crawl_state" where
  "make_request reply page offset max_results s =
     (let s1 = s\<lparr>requested := requested s @ [(offset, max_results)]\<rparr> in
      case reply page offset max_results of
        TransportFailure \<Rightarrow> (JNull, s1\<lparr>log := log s1 @ [RequestError offset]\<rparr>)
      | DecodeFailure \<Rightarrow> (JNull, s1\<lparr>log := log s1 @ [ParseError offset]\<rparr>)
      | Payload j \<Rightarrow> (j, s1))"

text \<open>
  \<^verbatim>\<open>_save_plugins\<close>: an IOError of \<^verbatim>\<open>open\<close> is caught and logged; \<open>writable page\<close> says
  whether the file of that page can be opened for writing.
\<close>

definition save_plugins ::
  "(nat \<Rightarrow> bool) \<Rightarrow> json \<Rightarrow> nat \<Rightarrow> crawl_state \<Rightarrow> crawl_state" where
  "save_plugins writable plugins page s =
     (if writable page then s\<lparr>saved := (saved s)(page \<mapsto> plugins)\<rparr>
      else s\<lparr>log := log s @ [SaveError page]\<rparr>)"

text \<open>
  The body of \<^verbatim>\<open>for page in range(max_pages)\<close>, over the pages still to visit. The first
  component is the exception that escaped, if any (\<^verbatim>\<open>len\<close> of a truthy number or boolean).
\<close>

fun crawl_pages ::
  "remote \<Rightarrow> (nat \<Rightarrow> bool) \<Rightarrow> int \<Rightarrow> nat list \<Rightarrow> crawl_state \<Rightarrow> error option \<times> crawl_state" where
  "crawl_pages reply writable plugins_per_page [] s = (None, s)"
| "crawl_pages reply writable plugins_per_page (page # rest) s =
     (let offset = int page * plugins_per_page;
          (plugins, s1) = make_request reply page offset plugins_per_page s
      in if \<not> truthy plugins then (None, s1\<lparr>log := log s1 @ [NoMorePlugins page]\<rparr>)
         else if is_list plugins \<and> \<not> truthy plugins
           then (None, s1\<lparr>log := log s1 @ [EndOfResults page]\<rparr>)
         else (case py_len plugins of
                 Inl e \<Rightarrow> (Some e, s1)
               | Inr n \<Rightarrow>
                   let s2 = s1\<lparr>total_plugins := total_plugins s1 + n\<rparr>;
                       s3 = s2\<lparr>log := log s2 @ [CrawledPage (page + 1) n (total_plugins s2)]\<rparr>
                   in crawl_pages reply writable plugins_per_page rest
                        (save_plugins writable plugins (page + 1) s3)))"

text \<open>\<open>files\<close> is the content of the \<^verbatim>\<open>plugins\<close> directory when the crawl starts.\<close>

definition crawl_init :: "(nat \<Rightarrow> json option) \<Rightarrow> crawl_state" where
  "crawl_init files = \<lparr>total_plugins = 0, requested = [], saved = files, log = []\<rparr>"

definition crawl ::
  "remote \<Rightarrow> (nat \<Rightarrow> bool) \<Rightarrow> int \<Rightarrow> int \<Rightarrow> (nat \<Rightarrow> json option) \<Rightarrow> nat outcome \<times> crawl_state" where
  "crawl reply writable max_pages plugins_per_page files =
     (case crawl_pages reply writable plugins_per_page [0..<nat max_pages] (crawl_init files) of
        (None, s) \<Rightarrow> (Returned (total_plugins s), s)
      | (Some e, s) \<Rightarrow> (Raised e, s))"

text \<open>The same loop with the second test (lines 126 to 128) taken out.\<close>

fun crawl_pages_one_check ::
  "remote \<Rightarrow> (nat \<Rightarrow> bool) \<Rightarrow> int \<Rightarrow> nat list \<Rightarrow> crawl_state \<Rightarrow> error option \<times> crawl_state" where
  "crawl_pages_one_check reply writable plugins_per_page [] s = (None, s)"
| "crawl_pages_one_check reply writable plugins_per_page (page # rest) s =
     (let offset = int page * plugins_per_page;
          (plugins, s1) = make_request reply page offset plugins_per_page s
      in if \<not> truthy plugins then (None, s1\<lparr>log := log s1 @ [NoMorePlugins page]\<rparr>)
         else (case py_len plugins of
                 Inl e \<Rightarrow> (Some e, s1)
               | Inr n \<Rightarrow>
                   let s2 = s1\<lparr>total_plugins := total_plugins s1 + n\<rparr>;
                       s3 = s2\<lparr>log := log s2 @ [CrawledPage (page + 1) n (total_plugins s2)]\<rparr>
                   in crawl_pages_one_check reply writable plugins_per_page rest
                        (save_plugins writable plugins (page + 1) s3)))"

definition crawl_one_check ::
  "remote \<Rightarrow> (nat \<Rightarrow> bool) \<Rightarrow> int \<Rightarrow> int \<Rightarrow> (nat \<Rightarrow> json option) \<Rightarrow> nat outcome \<times> crawl_state" where
  "crawl_one_check reply writable max_pages plugins_per_page files =
     (case crawl_pages_one_check reply writable plugins_per_page [0..<nat max_pages]
             (crawl_init files) of
        (None, s) \<Rightarrow> (Returned (total_plugins s), s)
      | (Some e, s) \<Rightarrow> (Raised e, s))"

text \<open>
  What the termination claim speaks of: the response the crawl receives for page \<open>p\<close>,
  whether it is a page that lets the loop go on (a non-empty list), and the number of
  records of such a page.
\<close>

definition page_response :: "remote \<Rightarrow> int \<Rightarrow> nat \<Rightarrow> response" where
  "page_response reply plugins_per_page p = reply p (int p * plugins_per_page) plugins_per_page"

fun list_or_failed :: "response \<Rightarrow> bool" where
  "list_or_failed TransportFailure = True"
| "list_or_failed DecodeFailure = True"
| "list_or_failed (Payload JNull) = True"
| "list_or_failed (Payload (JList xs)) = True"
| "list_or_failed (Payload v) = False"

fun failed :: "response \<Rightarrow> bool" where
  "failed TransportFailure = True"
| "failed DecodeFailure = True"
| "failed (Payload v) = False"

fun records_of :: "response \<Rightarrow> json list" where
  "records_of (Payload (JList xs)) = xs"
| "records_of r = []"

definition nonempty_page :: "response \<Rightarrow> bool" where
  "nonempty_page r = (records_of r \<noteq> [])"

text \<open>The pages before the stopping point, among the first \<open>max_pages\<close>.\<close>

definition pages_before_stop :: "remote \<Rightarrow> int \<Rightarrow> int \<Rightarrow> nat list" where
  "pages_before_stop reply max_pages plugins_per_page =
     takeWhile (\<lambda>p. nonempty_page (page_response reply plugins_per_page p)) [0..<nat max_pages]"

section \<open>The transformer (data\_processor.py)\<close>

text \<open>
  \<^verbatim>\<open>self.fields\<close>: output column and source path, in the order of the dict literal.
  (A record type declares a constant \<open>fields\<close> of its own, hence the prefix.)
\<close>

definition self_fields :: "(string \<times> string) list" where
  "self_fields =
     [(''id'', ''id''),
      (''name'', ''name''),
      (''downloads'', ''downloads''),
      (''rating'', ''rating''),
      (''pricing'', ''pricingModel''),
      (''vendor'', ''vendor_name''),
      (''tags'', ''tags''),
      (''date'', ''cdate'')]"

text \<open>\<^verbatim>\<open>s.split(sep)\<close> for a one-character separator: every occurrence splits.\<close>

fun py_split :: "char \<Rightarrow> string \<Rightarrow> string list" where
  "py_split sep [] = [[]]"
| "py_split sep (c # cs) =
     (if c = sep then [] # py_split sep cs
      else (case py_split sep cs of
              [] \<Rightarrow> [[c]]
            | w # ws \<Rightarrow> (c # w) # ws))"

text \<open>
  Lines 61 to 65. \<^verbatim>\<open>parent, child = json_path.split('_')\<close> unpacks exactly two parts and
  raises a ValueError for any other number; the unpacking comes before the lookups.
\<close>

definition resolve_value :: "json \<Rightarrow> string \<Rightarrow> error + json" where
  "resolve_value plugin json_path =
     (if CHR ''_'' \<in> set json_path then
        (case py_split (CHR ''_'') json_path of
           [parent, child] \<Rightarrow>
             (case py_get plugin parent (JObj []) of
                Inl e \<Rightarrow> Inl e
              | Inr p \<Rightarrow> py_get p child (JStr []))
         | _ \<Rightarrow> Inl ValueError)
      else py_get plugin json_path (JStr []))"

text \<open>\<^verbatim>\<open>sep.join(items)\<close> on strings.\<close>

fun join_strs :: "string \<Rightarrow> string list \<Rightarrow> string" where
  "join_strs sep [] = []"
| "join_strs sep [w] = w"
| "join_strs sep (w # ws) = w @ sep @ join_strs sep ws"

text \<open>\<^verbatim>\<open>str.join\<close> raises a TypeError on the first item that is not a string.\<close>

fun str_items :: "json list \<Rightarrow> error + string list" where
  "str_items [] = Inr []"
| "str_items (JStr w # vs) =
     (case str_items vs of Inl e \<Rightarrow> Inl e | Inr ws \<Rightarrow> Inr (w # ws))"
| "str_items (v # vs) = Inl TypeError"

definition py_join :: "string \<Rightarrow> json \<Rightarrow> error + json" where
  "py_join sep v =
     (case py_iter v of
        Inl e \<Rightarrow> Inl e
      | Inr items \<Rightarrow>
          (case str_items items of
             Inl e \<Rightarrow> Inl e
           | Inr ws \<Rightarrow> Inr (JStr (join_strs sep ws))))"

text \<open>
  Lines 68 to 71. \<open>fmt_date v\<close> stands for
  \<^verbatim>\<open>datetime.fromtimestamp(v / 1000).strftime('%Y-%m-%d')\<close>, which depends on floating
  point and on the local time zone and can raise; it is a parameter of the model.
\<close>

definition normalize :: "(json \<Rightarrow> error + string) \<Rightarrow> string \<Rightarrow> json \<Rightarrow> error + json" where
  "normalize fmt_date field_name v =
     (if field_name = ''tags'' then (if truthy v then py_join '','' v else Inr (JStr []))
      else if field_name = ''date'' then
        (if truthy v then (case fmt_date v of Inl e \<Rightarrow> Inl e | Inr d \<Rightarrow> Inr (JStr d))
         else Inr (JStr []))
      else Inr v)"

text \<open>
  Lines 59 to 73, the inner loop over \<^verbatim>\<open>self.fields.items()\<close>: the row is a dict filled
  in that order (the keys of \<^verbatim>\<open>self.fields\<close> are distinct, so each assignment adds a
  key). An exception leaves the loop at once.
\<close>

type_synonym row = "(string \<times> json) list"

fun project :: "(json \<Rightarrow> error + string) \<Rightarrow> json \<Rightarrow> (string \<times> string) list \<Rightarrow> error + row" where
  "project fmt_date plugin [] = Inr []"
| "project fmt_date plugin ((field_name, json_path) # rest) =
     (case resolve_value plugin json_path of
        Inl e \<Rightarrow> Inl e
      | Inr v \<Rightarrow>
          (case normalize fmt_date field_name v of
             Inl e \<Rightarrow> Inl e
           | Inr v' \<Rightarrow>
               (case project fmt_date plugin rest of
                  Inl e \<Rightarrow> Inl e
                | Inr r \<Rightarrow> Inr ((field_name, v') # r))))"

definition flat_record :: "(json \<Rightarrow> error + string) \<Rightarrow> json \<Rightarrow> error + row" where
  "flat_record fmt_date plugin = project fmt_date plugin self_fields"

text \<open>Lines 57 to 74, the outer loop \<^verbatim>\<open>for plugin in all_plugins\<close>.\<close>

fun process_all :: "(json \<Rightarrow> error + string) \<Rightarrow> json list \<Rightarrow> error + row list" where
  "process_all fmt_date [] = Inr []"
| "process_all fmt_date (plugin # rest) =
     (case flat_record fmt_date plugin of
        Inl e \<Rightarrow> Inl e
      | Inr r \<Rightarrow>
          (case process_all fmt_date rest of
             Inl e \<Rightarrow> Inl e
           | Inr rs \<Rightarrow> Inr (r # rs)))"

text \<open>
  A file of the snapshot directory as \<^verbatim>\<open>open\<close> and \<^verbatim>\<open>json.load\<close> see it: it cannot be
  opened, its text is not JSON, or it decodes to a value.
\<close>

datatype snapshot = Unreadable | Malformed | Decoded json

text \<open>
  The directory is the list of its entries in the order the operating system enumerates
  them: \<^verbatim>\<open>Path.glob\<close> yields in that order and the code does not sort.
  \<^verbatim>\<open>glob('*.json')\<close> keeps the names that end in \<^verbatim>\<open>.json\<close>.
\<close>

type_synonym directory = "(string \<times> snapshot) list"

definition is_json_name :: "string \<Rightarrow> bool" where
  "is_json_name name = (drop (length name - 5) name = ''.json'')"

definition glob_json :: "directory \<Rightarrow> directory" where
  "glob_json dir = filter (\<lambda>entry. is_json_name (fst entry)) dir"

text \<open>
  Lines 46 to 50: \<^verbatim>\<open>json_data.get('plugins', [])\<close>, then \<^verbatim>\<open>all_plugins.extend\<close>. The
  accumulator is the local \<^verbatim>\<open>all_plugins\<close>.
\<close>

fun load_files :: "directory \<Rightarrow> json list \<Rightarrow> error + json list" where
  "load_files [] all_plugins = Inr all_plugins"
| "load_files ((name, Unreadable) # rest) all_plugins = Inl OSError"
| "load_files ((name, Malformed) # rest) all_plugins = Inl JSONDecodeError"
| "load_files ((name, Decoded json_data) # rest) all_plugins =
     (case py_get json_data ''plugins'' (JList []) of
        Inl e \<Rightarrow> Inl e
      | Inr plugins_data \<Rightarrow>
          (case py_iter plugins_data of
             Inl e \<Rightarrow> Inl e
           | Inr items \<Rightarrow> load_files rest (all_plugins @ items)))"

datatype transform_event =
    LoadedInfo nat nat
  | LoadError error
  | CsvWritten nat
  | CsvError error
  | DbWritten nat

text \<open>
  The two sinks and the log. The CSV file holds its header and its rows; the table
  \<^verbatim>\<open>plugins\<close> of \<^verbatim>\<open>plugins.db\<close> holds its committed rows, \<open>None\<close> when the table does not
  exist. Cells stay JSON values: rendering them is the codec's business.
\<close>

record sinks =
  csv_file :: "(string list \<times> json list list) option"
  db_table :: "json list list option"
  tlog :: "transform_event list"

text \<open>What the run meets outside: the directory, and whether each sink can be opened.\<close>

record world =
  snapshot_dir :: directory
  csv_writable :: bool
  db_connectable :: bool
  date_format :: "json \<Rightarrow> error + string"

text \<open>
  \<^verbatim>\<open>csv.DictWriter(f, fieldnames=self.fields.keys())\<close> writes, for each row dict, the
  value under each field name (its \<^verbatim>\<open>restval\<close>, the empty string, for a missing one).
\<close>

definition csv_cells :: "row \<Rightarrow> json list" where
  "csv_cells r =
     map (\<lambda>k. case map_of r k of None \<Rightarrow> JStr [] | Some v \<Rightarrow> v) (map fst self_fields)"

text \<open>
  Lines 77 to 84: any exception of the CSV write is caught and logged. The write fails
  when \<^verbatim>\<open>open\<close> does (\<open>csv_writable\<close>), which leaves the file as it was.
\<close>

definition write_csv :: "world \<Rightarrow> row list \<Rightarrow> sinks \<Rightarrow> sinks" where
  "write_csv w processed_data s =
     (if csv_writable w
      then s\<lparr>csv_file := Some (map fst self_fields, map csv_cells processed_data),
             tlog := tlog s @ [CsvWritten (length processed_data)]\<rparr>
      else s\<lparr>tlog := tlog s @ [CsvError OSError]\<rparr>)"

text \<open>\<^verbatim>\<open>plugin['id']\<close> and so on, line 91: a missing key raises a KeyError.\<close>

fun db_tuple :: "row \<Rightarrow> string list \<Rightarrow> error + json list" where
  "db_tuple r [] = Inr []"
| "db_tuple r (k # ks) =
     (case map_of r k of
        None \<Rightarrow> Inl KeyError
      | Some v \<Rightarrow> (case db_tuple r ks of Inl e \<Rightarrow> Inl e | Inr vs \<Rightarrow> Inr (v # vs)))"

text \<open>
  What sqlite3 binds to a \<^verbatim>\<open>?\<close>: None, numbers and strings; an integer outside 64 bits
  raises an OverflowError, a list or a dict an error of the driver.
\<close>

fun bind_error :: "json \<Rightarrow> error option" where
  "bind_error (JList xs) = Some InterfaceError"
| "bind_error (JObj kvs) = Some InterfaceError"
| "bind_error (JInt n) =
     (if - (2 ^ 63) \<le> n \<and> n < 2 ^ 63 then None else Some OverflowError)"
| "bind_error v = None"

fun bind_tuple :: "json list \<Rightarrow> error option" where
  "bind_tuple [] = None"
| "bind_tuple (v # vs) = (case bind_error v of Some e \<Rightarrow> Some e | None \<Rightarrow> bind_tuple vs)"

text \<open>The loop of lines 90 and 91: the rows inserted, or the first exception.\<close>

fun insert_rows :: "row list \<Rightarrow> error + json list list" where
  "insert_rows [] = Inr []"
| "insert_rows (plugin # rest) =
     (case db_tuple plugin (map fst self_fields) of
        Inl e \<Rightarrow> Inl e
      | Inr vs \<Rightarrow>
          (case bind_tuple vs of
             Some e \<Rightarrow> Inl e
           | None \<Rightarrow> (case insert_rows rest of Inl e \<Rightarrow> Inl e | Inr rs \<Rightarrow> Inr (vs # rs))))"

text \<open>
  Lines 87 to 94, outside any \<^verbatim>\<open>try\<close>: an exception escapes \<^verbatim>\<open>process_plugins\<close>.
  \<^verbatim>\<open>CREATE TABLE plugins\<close> fails when the table exists; it is not part of a transaction,
  the inserts are, and they are lost unless \<^verbatim>\<open>commit\<close> is reached.
\<close>

definition write_db :: "world \<Rightarrow> row list \<Rightarrow> sinks \<Rightarrow> unit outcome \<times> sinks" where
  "write_db w processed_data s =
     (if \<not> db_connectable w then (Raised OperationalError, s)
      else (case db_table s of
              Some old \<Rightarrow> (Raised OperationalError, s)
            | None \<Rightarrow>
                (case insert_rows processed_data of
                   Inl e \<Rightarrow> (Raised e, s\<lparr>db_table := Some []\<rparr>)
                 | Inr rs \<Rightarrow>
                     (Returned (),
                      s\<lparr>db_table := Some rs,
                        tlog := tlog s @ [DbWritten (length processed_data)]\<rparr>))))"

text \<open>\<^verbatim>\<open>process_plugins\<close>, lines 40 to 94.\<close>

definition process_plugins :: "world \<Rightarrow> sinks \<Rightarrow> unit outcome \<times> sinks" where
  "process_plugins w s =
     (case load_files (glob_json (snapshot_dir w)) [] of
        Inl e \<Rightarrow> (Returned (), s\<lparr>tlog := tlog s @ [LoadError e]\<rparr>)
      | Inr all_plugins \<Rightarrow>
          (let s1 = s\<lparr>tlog := tlog s @
                      [LoadedInfo (length all_plugins) (length (glob_json (snapshot_dir w)))]\<rparr>
           in case process_all (date_format w) all_plugins of
                Inl e \<Rightarrow> (Raised e, s1)
              | Inr processed_data \<Rightarrow>
                  write_db w processed_data (write_csv w processed_data s1)))"

section \<open>What the claims speak of\<close>

text \<open>
  The split rule in the specification's words, to compare \<open>resolve_value\<close> with: split
  on the first separator only, the text before it is the parent key and everything after
  it the child key; then the two-level lookup.
\<close>

definition split_first :: "char \<Rightarrow> string \<Rightarrow> string \<times> string" where
  "split_first sep s = (takeWhile (\<lambda>c. c \<noteq> sep) s, tl (dropWhile (\<lambda>c. c \<noteq> sep) s))"

definition nested_lookup :: "json \<Rightarrow> string \<Rightarrow> string \<Rightarrow> error + json" where
  "nested_lookup plugin parent child =
     (case py_get plugin parent (JObj []) of
        Inl e \<Rightarrow> Inl e
      | Inr p \<Rightarrow> py_get p child (JStr []))"

definition resolve_first_split :: "json \<Rightarrow> string \<Rightarrow> error + json" where
  "resolve_first_split plugin json_path =
     (if CHR ''_'' \<in> set json_path
      then nested_lookup plugin (fst (split_first (CHR ''_'') json_path))
             (snd (split_first (CHR ''_'') json_path))
      else py_get plugin json_path (JStr []))"

text \<open>
  A source field is absent from a record: a flat key the record does not have, or a
  nested path whose parent is missing or is a dict without the child key.
\<close>

definition source_absent :: "(string \<times> json) list \<Rightarrow> string \<Rightarrow> bool" where
  "source_absent kvs json_path =
     (if CHR ''_'' \<in> set json_path then
        (case py_split (CHR ''_'') json_path of
           [parent, child] \<Rightarrow>
             (case map_of kvs parent of
                None \<Rightarrow> True
              | Some (JObj sub) \<Rightarrow> map_of sub child = None
              | Some v \<Rightarrow> False)
         | _ \<Rightarrow> False)
      else map_of kvs json_path = None)"

text \<open>The eight output columns, in order.\<close>

definition output_columns :: "string list" where
  "output_columns =
     [''id'', ''name'', ''downloads'', ''rating'', ''pricing'', ''vendor'', ''tags'', ''date'']"

section \<open>Concrete inputs\<close>

text \<open>
  A marketplace of three records: two on the first page, one on the second; the third
  request fails.
\<close>

definition example_remote :: remote where
  "example_remote p offset m =
     (if p = 0 then Payload (JList [JObj [(''id'', JInt 1)], JObj [(''id'', JInt 2)]])
      else if p = 1 then Payload (JList [JObj [(''id'', JInt 3)]])
      else if p = 2 then TransportFailure
      else Payload (JList [JObj [(''id'', JInt 4)]]))"

text \<open>Sinks before a first run, and sinks holding the CSV file of an earlier run.\<close>

definition empty_sinks :: sinks where
  "empty_sinks = \<lparr>csv_file = None, db_table = None, tlog = []\<rparr>"

definition stale_sinks :: sinks where
  "stale_sinks =
     \<lparr>csv_file = Some ([''old''], [[JInt 0]]), db_table = None, tlog = []\<rparr>"

text \<open>
  A world in which both sinks can be opened. No record of the examples has a \<^verbatim>\<open>cdate\<close>,
  so the date rendering is never called.
\<close>

definition example_world :: "directory \<Rightarrow> world" where
  "example_world dir =
     \<lparr>snapshot_dir = dir, csv_writable = True, db_connectable = True,
      date_format = (\<lambda>v. Inl TypeError)\<rparr>"

text \<open>Two snapshot files in the wrapper shape, two records each.\<close>

definition page1_file :: snapshot where
  "page1_file = Decoded (JObj [(''plugins'', JList [JObj [(''id'', JInt 1)], JObj [(''id'', JInt 2)]])])"

definition page2_file :: snapshot where
  "page2_file = Decoded (JObj [(''plugins'', JList [JObj [(''id'', JInt 3)], JObj [(''id'', JInt 4)]])])"

section \<open>The second termination test is dead\<close>

lemma second_check_never_fires: "truthy v \<Longrightarrow> \<not> (is_list v \<and> \<not> truthy v)"
  by simp

lemma crawl_pages_one_check_eq:
  "crawl_pages_one_check reply writable pps ps s = crawl_pages reply writable pps ps s"
proof (induction ps arbitrary: s)
  case Nil
  show ?case by simp
next
  case (Cons page rest)
  show ?case
    by (simp add: Let_def Cons.IH split: prod.splits sum.splits)
qed

text \<open>
  C10. The test \<^verbatim>\<open>isinstance(plugins, list) and not plugins\<close> comes after
  \<^verbatim>\<open>if not plugins: break\<close>, so it is never true when reached: the crawl without it
  returns the same value and leaves the same state (requests, saved pages, log) for every
  remote, every disk, every page count and page size.
\<close>

theorem crawl_second_check_dead:
  "crawl_one_check reply writable max_pages plugins_per_page files =
   crawl reply writable max_pages plugins_per_page files"
  by (simp add: crawl_one_check_def crawl_def crawl_pages_one_check_eq)

section \<open>Steps of the crawl loop\<close>

lemma save_plugins_requested: "requested (save_plugins w v n s) = requested s"
  by (simp add: save_plugins_def)

lemma save_plugins_total: "total_plugins (save_plugins w v n s) = total_plugins s"
  by (simp add: save_plugins_def)

lemma crawl_pages_failed:
  assumes "failed (page_response reply pps page)"
  shows "crawl_pages reply w pps (page # rest) s =
           (None, s\<lparr>requested := requested s @ [(int page * pps, pps)],
                     log := log s @
                       [if page_response reply pps page = TransportFailure
                        then RequestError (int page * pps) else ParseError (int page * pps),
                        NoMorePlugins page]\<rparr>)"
  using assms
  by (cases "reply page (int page * pps) pps")
     (simp_all add: page_response_def make_request_def Let_def)

lemma crawl_pages_falsy:
  assumes "page_response reply pps page = Payload j" and "\<not> truthy j"
  shows "crawl_pages reply w pps (page # rest) s =
           (None, s\<lparr>requested := requested s @ [(int page * pps, pps)],
                     log := log s @ [NoMorePlugins page]\<rparr>)"
  using assms by (simp add: page_response_def make_request_def Let_def)

lemma crawl_pages_raise:
  assumes "page_response reply pps page = Payload j" and "truthy j" and "py_len j = Inl e"
  shows "crawl_pages reply w pps (page # rest) s =
           (Some e, s\<lparr>requested := requested s @ [(int page * pps, pps)]\<rparr>)"
  using assms by (simp add: page_response_def make_request_def Let_def)

lemma crawl_pages_more:
  assumes "page_response reply pps page = Payload j" and "truthy j" and "py_len j = Inr n"
  shows "crawl_pages reply w pps (page # rest) s =
           crawl_pages reply w pps rest
             (save_plugins w j (page + 1)
               (s\<lparr>requested := requested s @ [(int page * pps, pps)],
                  total_plugins := total_plugins s + n,
                  log := log s @ [CrawledPage (page + 1) n (total_plugins s + n)]\<rparr>))"
  using assms by (simp add: page_response_def make_request_def Let_def)

section \<open>Termination and total of the crawl\<close>

lemma nonempty_page_iff:
  "nonempty_page r = (\<exists>x xs. r = Payload (JList (x # xs)))"
  by (cases r rule: records_of.cases) (auto simp: nonempty_page_def neq_Nil_conv)

lemma crawl_pages_stop:
  assumes "\<not> nonempty_page (page_response reply pps page)"
    and "list_or_failed (page_response reply pps page)"
  shows "\<exists>evs. crawl_pages reply w pps (page # rest) s =
           (None, s\<lparr>requested := requested s @ [(int page * pps, pps)],
                     log := log s @ evs\<rparr>)"
proof (cases "page_response reply pps page")
  case TransportFailure
  then have "failed (page_response reply pps page)" by simp
  from crawl_pages_failed [OF this] show ?thesis by blast
next
  case DecodeFailure
  then have "failed (page_response reply pps page)" by simp
  from crawl_pages_failed [OF this] show ?thesis by blast
next
  case (Payload j)
  with assms have "\<not> truthy j"
    by (cases j) (simp_all add: nonempty_page_def)
  from crawl_pages_falsy [OF Payload this] show ?thesis by blast
qed


lemma nonempty_page_more:
  assumes "nonempty_page (page_response reply pps page)"
  shows "crawl_pages reply w pps (page # rest) s =
           crawl_pages reply w pps rest
             (save_plugins w (JList (records_of (page_response reply pps page))) (page + 1)
               (s\<lparr>requested := requested s @ [(int page * pps, pps)],
                  total_plugins :=
                    total_plugins s + length (records_of (page_response reply pps page)),
                  log := log s @
                    [CrawledPage (page + 1) (length (records_of (page_response reply pps page)))
                       (total_plugins s + length (records_of (page_response reply pps page)))]\<rparr>))"
proof -
  from assms obtain x xs where r: "page_response reply pps page = Payload (JList (x # xs))"
    by (auto simp: nonempty_page_iff)
  have "truthy (JList (x # xs))" and "py_len (JList (x # xs)) = Inr (length (x # xs))"
    by simp_all
  from crawl_pages_more [OF r this] show ?thesis by (simp add: r)
qed

lemma crawl_pages_lists:
  assumes "\<forall>p\<in>set ps. list_or_failed (page_response reply pps p)"
  shows "fst (crawl_pages reply w pps ps s) = None \<and>
         total_plugins (snd (crawl_pages reply w pps ps s)) =
           total_plugins s +
           sum_list (map (\<lambda>p. length (records_of (page_response reply pps p)))
             (takeWhile (\<lambda>p. nonempty_page (page_response reply pps p)) ps)) \<and>
         requested (snd (crawl_pages reply w pps ps s)) =
           requested s @ map (\<lambda>p. (int p * pps, pps))
             (take (Suc (length (takeWhile (\<lambda>p. nonempty_page (page_response reply pps p)) ps))) ps)"
  using assms
proof (induction ps arbitrary: s)
  case Nil
  show ?case by simp
next
  case (Cons page rest)
  show ?case
  proof (cases "nonempty_page (page_response reply pps page)")
    case True
    have rest: "\<forall>p\<in>set rest. list_or_failed (page_response reply pps p)"
      using Cons.prems by simp
    show ?thesis
      by (simp only: nonempty_page_more [OF True] Cons.IH [OF rest])
         (simp add: True save_plugins_requested save_plugins_total)
  next
    case False
    have "list_or_failed (page_response reply pps page)" using Cons.prems by simp
    from crawl_pages_stop [OF False this, of w rest s]
    obtain evs where "crawl_pages reply w pps (page # rest) s =
           (None, s\<lparr>requested := requested s @ [(int page * pps, pps)],
                     log := log s @ evs\<rparr>)" by blast
    then show ?thesis by (simp add: False)
  qed
qed

lemma takeWhile_upt_prefix:
  "takeWhile P [0..<n] = [0..<length (takeWhile P [0..<n])]"
proof -
  have "length (takeWhile P [0..<n]) \<le> n"
    using length_takeWhile_le [of P "[0..<n]"] by simp
  then have "take (length (takeWhile P [0..<n])) [0..<n] = [0..<length (takeWhile P [0..<n])]"
    by (simp add: take_upt)
  then show ?thesis using takeWhile_eq_take [of P "[0..<n]"] by simp
qed

lemma crawl_init_total: "total_plugins (crawl_init files) = 0"
  by (simp add: crawl_init_def)

lemma crawl_init_requested: "requested (crawl_init files) = []"
  by (simp add: crawl_init_def)

lemma crawl_unfold:
  assumes "crawl_pages reply writable pps [0..<nat max_pages] (crawl_init files) = (None, s)"
  shows "crawl reply writable max_pages pps files = (Returned (total_plugins s), s)"
  using assms by (simp add: crawl_def)

text \<open>
  C2. When every response the crawl receives is a list, \<^verbatim>\<open>None\<close> or a failed request,
  \<^verbatim>\<open>crawl\<close> returns the sum of the lengths of the pages before the first page that is
  empty, absent or failed (or of all \<open>max_pages\<close> pages when there is none); these pages
  are the indices \<open>0, 1, ...\<close> up to the stopping point; and the requests issued are, in
  order, those of these pages and of the page it stopped on, each with offset
  \<open>p * plugins_per_page\<close>, and no request after it.
\<close>

theorem crawl_stops_at_first_empty:
  assumes "\<forall>p<nat max_pages. list_or_failed (page_response reply plugins_per_page p)"
  shows "fst (crawl reply writable max_pages plugins_per_page files) =
           Returned (\<Sum>p\<leftarrow>pages_before_stop reply max_pages plugins_per_page.
                       length (records_of (page_response reply plugins_per_page p))) \<and>
         pages_before_stop reply max_pages plugins_per_page =
           [0..<length (pages_before_stop reply max_pages plugins_per_page)] \<and>
         requested (snd (crawl reply writable max_pages plugins_per_page files)) =
           map (\<lambda>p. (int p * plugins_per_page, plugins_per_page))
             (take (Suc (length (pages_before_stop reply max_pages plugins_per_page)))
                [0..<nat max_pages])"
proof -
  obtain x s where r:
    "crawl_pages reply writable plugins_per_page [0..<nat max_pages] (crawl_init files) = (x, s)"
    by (cases "crawl_pages reply writable plugins_per_page [0..<nat max_pages] (crawl_init files)")
  have "\<forall>p\<in>set [0..<nat max_pages]. list_or_failed (page_response reply plugins_per_page p)"
    using assms by simp
  from crawl_pages_lists [OF this, of writable "crawl_init files"]
  have x: "x = None"
    and tot: "total_plugins s =
           (\<Sum>p\<leftarrow>pages_before_stop reply max_pages plugins_per_page.
                       length (records_of (page_response reply plugins_per_page p)))"
    and req: "requested s =
           map (\<lambda>p. (int p * plugins_per_page, plugins_per_page))
             (take (Suc (length (pages_before_stop reply max_pages plugins_per_page)))
                [0..<nat max_pages])"
    by (simp_all add: r pages_before_stop_def crawl_init_total crawl_init_requested)
  from r x have "crawl reply writable max_pages plugins_per_page files =
      (Returned (total_plugins s), s)"
    by (simp add: crawl_unfold)
  moreover have "pages_before_stop reply max_pages plugins_per_page =
           [0..<length (pages_before_stop reply max_pages plugins_per_page)]"
    unfolding pages_before_stop_def by (rule takeWhile_upt_prefix)
  ultimately show ?thesis using tot req by simp
qed


theorem crawl_stops_at_first_empty_witness:
  "fst (crawl example_remote (\<lambda>n. True) 5 100 Map.empty) = Returned 3 \<and>
   requested (snd (crawl example_remote (\<lambda>n. True) 5 100 Map.empty)) =
     [(0, 100), (100, 100), (200, 100)]"
proof -
  have h: "\<forall>p<nat 5. list_or_failed (page_response example_remote 100 p)"
    by (simp add: page_response_def example_remote_def)
  have b: "pages_before_stop example_remote 5 100 = [0, 1]"
    by code_simp
  have u: "take 3 [0..<nat 5] = [0, 1, 2]"
    by code_simp
  show ?thesis
    using crawl_stops_at_first_empty [OF h, of "\<lambda>n. True" Map.empty]
    by (simp add: b u page_response_def example_remote_def)
qed

section \<open>A failed snapshot write does not end the crawl\<close>

text \<open>
  C9, as stated, fails: with a disk on which no page can be written, the write of page 1
  fails and is logged, and the crawl still requests offsets 100 and 200 and counts all
  three records.
\<close>

theorem write_failure_crawl_goes_on:
  "fst (crawl example_remote (\<lambda>n. False) 5 100 Map.empty) = Returned 3 \<and>
   requested (snd (crawl example_remote (\<lambda>n. False) 5 100 Map.empty)) =
     [(0, 100), (100, 100), (200, 100)] \<and>
   log (snd (crawl example_remote (\<lambda>n. False) 5 100 Map.empty)) =
     [CrawledPage 1 2 2, SaveError 1, CrawledPage 2 1 3, SaveError 2,
      RequestError 200, NoMorePlugins 2]"
  by code_simp


lemma crawl_pages_same_requests:
  assumes "total_plugins s = total_plugins s'" and "requested s = requested s'"
  shows "fst (crawl_pages reply w pps ps s) = fst (crawl_pages reply w' pps ps s') \<and>
         total_plugins (snd (crawl_pages reply w pps ps s)) =
           total_plugins (snd (crawl_pages reply w' pps ps s')) \<and>
         requested (snd (crawl_pages reply w pps ps s)) =
           requested (snd (crawl_pages reply w' pps ps s'))"
  using assms
proof (induction ps arbitrary: s s')
  case Nil
  then show ?case by simp
next
  case (Cons page rest)
  show ?case
  proof (cases "page_response reply pps page")
    case TransportFailure
    then have "failed (page_response reply pps page)" by simp
    then show ?thesis using Cons.prems by (simp add: crawl_pages_failed del: crawl_pages.simps)
  next
    case DecodeFailure
    then have "failed (page_response reply pps page)" by simp
    then show ?thesis using Cons.prems by (simp add: crawl_pages_failed del: crawl_pages.simps)
  next
    case (Payload j)
    show ?thesis
    proof (cases "truthy j")
      case False
      then show ?thesis using Cons.prems by (simp add: crawl_pages_falsy [OF Payload] del: crawl_pages.simps)
    next
      case True
      show ?thesis
      proof (cases "py_len j")
        case (Inl e)
        then show ?thesis using Cons.prems by (simp add: crawl_pages_raise [OF Payload True] del: crawl_pages.simps)
      next
        case (Inr n)
        show ?thesis
          unfolding crawl_pages_more [OF Payload True Inr]
          by (rule Cons.IH)
             (simp_all add: save_plugins_total save_plugins_requested Cons.prems)
      qed
    qed
  qed
qed

lemma failed_page_is_last:
  assumes "failed (page_response reply pps p)"
  shows "length (requested (snd (crawl_pages reply w pps (pre @ p # post) s))) \<le>
           length (requested s) + Suc (length pre)"
proof (induction pre arbitrary: s)
  case Nil
  show ?case by (simp add: crawl_pages_failed [OF assms] del: crawl_pages.simps)
next
  case (Cons page rest)
  show ?case
  proof (cases "page_response reply pps page")
    case TransportFailure
    then have "failed (page_response reply pps page)" by simp
    then show ?thesis by (simp add: crawl_pages_failed del: crawl_pages.simps)
  next
    case DecodeFailure
    then have "failed (page_response reply pps page)" by simp
    then show ?thesis by (simp add: crawl_pages_failed del: crawl_pages.simps)
  next
    case (Payload j)
    show ?thesis
    proof (cases "truthy j")
      case False
      then show ?thesis by (simp add: crawl_pages_falsy [OF Payload] del: crawl_pages.simps)
    next
      case True
      show ?thesis
      proof (cases "py_len j")
        case (Inl e)
        then show ?thesis by (simp add: crawl_pages_raise [OF Payload True] del: crawl_pages.simps)
      next
        case (Inr n)
        have "length (requested (snd (crawl_pages reply w pps (rest @ p # post)
                 (save_plugins w j (page + 1)
                   (s\<lparr>requested := requested s @ [(int page * pps, pps)],
                      total_plugins := total_plugins s + n,
                      log := log s @ [CrawledPage (page + 1) n (total_plugins s + n)]\<rparr>))))) \<le>
              length (requested (save_plugins w j (page + 1)
                   (s\<lparr>requested := requested s @ [(int page * pps, pps)],
                      total_plugins := total_plugins s + n,
                      log := log s @ [CrawledPage (page + 1) n (total_plugins s + n)]\<rparr>))) +
              Suc (length rest)"
          by (rule Cons.IH)
        then show ?thesis
          by (simp add: crawl_pages_more [OF Payload True Inr] save_plugins_requested del: crawl_pages.simps)
      qed
    qed
  qed
qed

lemma crawl_fst_snd:
  "fst (crawl reply w mp pps files) =
     (case fst (crawl_pages reply w pps [0..<nat mp] (crawl_init files)) of
        None \<Rightarrow> Returned (total_plugins (snd (crawl_pages reply w pps [0..<nat mp] (crawl_init files))))
      | Some e \<Rightarrow> Raised e)"
  "snd (crawl reply w mp pps files) = snd (crawl_pages reply w pps [0..<nat mp] (crawl_init files))"
  by (simp_all add: crawl_def split: prod.splits option.splits)

text \<open>
  C9, amended. Whether the snapshot files can be written changes neither the value
  \<^verbatim>\<open>crawl\<close> returns nor the requests it issues: a failed write is not terminal. A
  failed request or a failed decode of the response is: when page \<open>p\<close> fails, no request
  is issued after that of page \<open>p\<close>.
\<close>

theorem write_failure_not_terminal:
  "fst (crawl reply writable max_pages plugins_per_page files) =
     fst (crawl reply (\<lambda>n. True) max_pages plugins_per_page files) \<and>
   requested (snd (crawl reply writable max_pages plugins_per_page files)) =
     requested (snd (crawl reply (\<lambda>n. True) max_pages plugins_per_page files)) \<and>
   (\<forall>p<nat max_pages. failed (page_response reply plugins_per_page p) \<longrightarrow>
      length (requested (snd (crawl reply writable max_pages plugins_per_page files))) \<le> Suc p)"
proof -
  have same: "fst (crawl_pages reply writable plugins_per_page [0..<nat max_pages] (crawl_init files)) =
          fst (crawl_pages reply (\<lambda>n. True) plugins_per_page [0..<nat max_pages] (crawl_init files)) \<and>
        total_plugins (snd (crawl_pages reply writable plugins_per_page [0..<nat max_pages] (crawl_init files))) =
          total_plugins (snd (crawl_pages reply (\<lambda>n. True) plugins_per_page [0..<nat max_pages] (crawl_init files))) \<and>
        requested (snd (crawl_pages reply writable plugins_per_page [0..<nat max_pages] (crawl_init files))) =
          requested (snd (crawl_pages reply (\<lambda>n. True) plugins_per_page [0..<nat max_pages] (crawl_init files)))"
    by (rule crawl_pages_same_requests) simp_all
  have last: "length (requested (snd (crawl reply writable max_pages plugins_per_page files))) \<le> Suc p"
    if "p < nat max_pages" and "failed (page_response reply plugins_per_page p)" for p
  proof -
    from that(1) have "[0..<nat max_pages] = [0..<p] @ [p..<nat max_pages]"
      using upt_add_eq_append [of 0 p "nat max_pages - p"] by simp
    with that(1) have "[0..<nat max_pages] = [0..<p] @ p # [Suc p..<nat max_pages]"
      by (simp add: upt_conv_Cons)
    with failed_page_is_last [OF that(2), of writable "[0..<p]" "[Suc p..<nat max_pages]" "crawl_init files"]
    show ?thesis by (simp add: crawl_fst_snd crawl_init_requested)
  qed
  from same last show ?thesis by (simp add: crawl_fst_snd split: option.splits)
qed

theorem write_failure_not_terminal_witness:
  "fst (crawl example_remote (\<lambda>n. False) 5 100 Map.empty) = Returned 3 \<and>
   length (requested (snd (crawl example_remote (\<lambda>n. False) 5 100 Map.empty))) \<le> 3"
proof -
  note t = write_failure_not_terminal [of example_remote "\<lambda>n. False" 5 100 Map.empty]
  have a: "fst (crawl example_remote (\<lambda>n. True) 5 100 Map.empty) = Returned 3"
    by code_simp
  have f: "failed (page_response example_remote 100 2)"
    by (simp add: page_response_def example_remote_def)
  from t a have 1: "fst (crawl example_remote (\<lambda>n. False) 5 100 Map.empty) = Returned 3"
    by simp
  from t have "\<forall>p<nat 5. failed (page_response example_remote 100 p) \<longrightarrow>
      length (requested (snd (crawl example_remote (\<lambda>n. False) 5 100 Map.empty))) \<le> Suc p"
    by blast
  then have "(2::nat) < nat 5 \<longrightarrow> failed (page_response example_remote 100 2) \<longrightarrow>
      length (requested (snd (crawl example_remote (\<lambda>n. False) 5 100 Map.empty))) \<le> Suc 2"
    by (rule spec)
  with f have "length (requested (snd (crawl example_remote (\<lambda>n. False) 5 100 Map.empty))) \<le> Suc 2"
    by simp
  with 1 show ?thesis by simp
qed

section \<open>Splitting a source path\<close>

lemma py_split_not_Nil: "py_split sep s \<noteq> []"
  by (induction s) (auto split: list.splits)

lemma py_split_no_sep: "sep \<notin> set s \<Longrightarrow> py_split sep s = [s]"
  by (induction s) auto

lemma py_split_first:
  "sep \<notin> set a \<Longrightarrow> py_split sep (a @ sep # b) = a # py_split sep b"
  by (induction a) auto

lemma length_py_split: "length (py_split sep s) = Suc (count_list s sep)"
  by (induction s) (auto split: list.splits simp: py_split_not_Nil)

lemma first_sep_decomp:
  assumes "sep \<in> set s"
  shows "s = takeWhile (\<lambda>c. c \<noteq> sep) s @ sep # tl (dropWhile (\<lambda>c. c \<noteq> sep) s)"
proof -
  from assms have "dropWhile (\<lambda>c. c \<noteq> sep) s \<noteq> []" by (simp add: dropWhile_eq_Nil_conv)
  moreover from this have "hd (dropWhile (\<lambda>c. c \<noteq> sep) s) = sep"
    using hd_dropWhile [of "\<lambda>c. c \<noteq> sep" s] by simp
  ultimately have "dropWhile (\<lambda>c. c \<noteq> sep) s = sep # tl (dropWhile (\<lambda>c. c \<noteq> sep) s)"
    by (cases "dropWhile (\<lambda>c. c \<noteq> sep) s") simp_all
  then show ?thesis using takeWhile_dropWhile_id [of "\<lambda>c. c \<noteq> sep" s] by simp
qed

lemma py_split_by_first:
  assumes "sep \<in> set s"
  shows "py_split sep s = fst (split_first sep s) # py_split sep (snd (split_first sep s))"
proof -
  have "sep \<notin> set (takeWhile (\<lambda>c. c \<noteq> sep) s)"
    by (auto dest: set_takeWhileD)
  from py_split_first [OF this, of "tl (dropWhile (\<lambda>c. c \<noteq> sep) s)"]
  show ?thesis using first_sep_decomp [OF assms] by (simp add: split_first_def)
qed

lemma count_split_first:
  assumes "sep \<in> set s"
  shows "count_list s sep = Suc (count_list (snd (split_first sep s)) sep)"
proof -
  have "sep \<notin> set (takeWhile (\<lambda>c. c \<noteq> sep) s)"
    by (auto dest: set_takeWhileD)
  then have "count_list (takeWhile (\<lambda>c. c \<noteq> sep) s) sep = 0"
    by (simp add: count_list_0_iff)
  moreover have "count_list s sep =
      count_list (takeWhile (\<lambda>c. c \<noteq> sep) s @ sep # tl (dropWhile (\<lambda>c. c \<noteq> sep) s)) sep"
    using first_sep_decomp [OF assms] by simp
  ultimately show ?thesis by (simp add: split_first_def)
qed

text \<open>
  C5, amended. A source path with exactly one separator is split there into parent and
  child key and resolved by the two-level lookup, which is what the first-separator rule
  gives as well. A source path with two or more separators is not resolved at all: the
  unpacking of the split raises a ValueError.
\<close>

theorem split_exactly_one_separator:
  "(count_list json_path (CHR ''_'') = 1 \<longrightarrow>
      resolve_value plugin json_path = resolve_first_split plugin json_path) \<and>
   (2 \<le> count_list json_path (CHR ''_'') \<longrightarrow>
      resolve_value plugin json_path = Inl ValueError)"
proof (intro conjI impI)
  assume one: "count_list json_path (CHR ''_'') = 1"
  then have mem: "CHR ''_'' \<in> set json_path"
    using count_list_0_iff [of json_path "CHR ''_''"] by auto
  from one count_split_first [OF mem]
  have "count_list (snd (split_first (CHR ''_'') json_path)) (CHR ''_'') = 0" by simp
  then have "CHR ''_'' \<notin> set (snd (split_first (CHR ''_'') json_path))"
    by (simp add: count_list_0_iff)
  then have "py_split (CHR ''_'') json_path =
      [fst (split_first (CHR ''_'') json_path), snd (split_first (CHR ''_'') json_path)]"
    by (simp add: py_split_by_first [OF mem] py_split_no_sep)
  then show "resolve_value plugin json_path = resolve_first_split plugin json_path"
    using mem by (simp add: resolve_value_def resolve_first_split_def nested_lookup_def)
next
  assume two: "2 \<le> count_list json_path (CHR ''_'')"
  then have mem: "CHR ''_'' \<in> set json_path"
    using count_list_0_iff [of json_path "CHR ''_''"] by auto
  from two have "3 \<le> length (py_split (CHR ''_'') json_path)"
    by (simp add: length_py_split)
  then obtain a b c ws where "py_split (CHR ''_'') json_path = a # b # c # ws"
    by (auto simp: Suc_le_length_iff numeral_3_eq_3)
  then show "resolve_value plugin json_path = Inl ValueError"
    using mem by (simp add: resolve_value_def)
qed

text \<open>
  C5, as stated, fails: for the path \<^verbatim>\<open>a_b_c\<close> the first-separator rule finds the child
  key \<^verbatim>\<open>b_c\<close> under \<^verbatim>\<open>a\<close>; the code raises.
\<close>

theorem first_separator_split_refuted:
  "resolve_value (JObj [(''a'', JObj [(''b_c'', JStr ''x'')])]) ''a_b_c'' = Inl ValueError \<and>
   resolve_first_split (JObj [(''a'', JObj [(''b_c'', JStr ''x'')])]) ''a_b_c'' = Inr (JStr ''x'')"
  by code_simp

theorem split_exactly_one_separator_witness:
  "resolve_value (JObj [(''vendor'', JObj [(''name'', JStr ''Acme'')])]) ''vendor_name'' = Inr (JStr ''Acme'') \<and>
   resolve_value (JObj [(''a'', JObj [(''b_c'', JStr ''x'')])]) ''a_b_c'' = Inl ValueError"
proof -
  have 1: "count_list ''vendor_name'' (CHR ''_'') = 1" by code_simp
  have 2: "2 \<le> count_list ''a_b_c'' (CHR ''_'')" by code_simp
  have 3: "resolve_first_split (JObj [(''vendor'', JObj [(''name'', JStr ''Acme'')])]) ''vendor_name'' = Inr (JStr ''Acme'')"
    by code_simp
  from split_exactly_one_separator [of "''vendor_name''" "JObj [(''vendor'', JObj [(''name'', JStr ''Acme'')])]"] 1 3
  have "resolve_value (JObj [(''vendor'', JObj [(''name'', JStr ''Acme'')])]) ''vendor_name'' = Inr (JStr ''Acme'')"
    by simp
  moreover from split_exactly_one_separator [of "''a_b_c''" "JObj [(''a'', JObj [(''b_c'', JStr ''x'')])]"] 2
  have "resolve_value (JObj [(''a'', JObj [(''b_c'', JStr ''x'')])]) ''a_b_c'' = Inl ValueError"
    by blast
  ultimately show ?thesis by blast
qed

section \<open>The columns of a flat record\<close>

lemma project_keys: "project fmt plugin flds = Inr r \<Longrightarrow> map fst r = map fst flds"
  by (induction flds arbitrary: r) (auto split: sum.splits)

lemma project_value:
  assumes "project fmt plugin flds = Inr r" and "distinct (map fst flds)"
    and "(c, path) \<in> set flds"
  shows "\<exists>v v'. resolve_value plugin path = Inr v \<and> normalize fmt c v = Inr v' \<and>
           map_of r c = Some v'"
  using assms
proof (induction flds arbitrary: r)
  case Nil
  then show ?case by simp
next
  case (Cons fld rest)
  obtain c0 p0 where fld: "fld = (c0, p0)" by (cases fld)
  from Cons.prems(1) obtain v0 v0' r' where
    step: "resolve_value plugin p0 = Inr v0" "normalize fmt c0 v0 = Inr v0'"
      "project fmt plugin rest = Inr r'" "r = (c0, v0') # r'"
    by (auto simp: fld split: sum.splits)
  show ?case
  proof (cases "c = c0")
    case True
    with Cons.prems(2,3) have "path = p0"
      by (auto simp: fld dest: map_of_SomeD intro: rev_image_eqI)
    with True step show ?thesis by simp
  next
    case False
    with Cons.prems(3) have "(c, path) \<in> set rest" by (simp add: fld)
    moreover from Cons.prems(2) have "distinct (map fst rest)" by simp
    ultimately obtain v v' where "resolve_value plugin path = Inr v"
      "normalize fmt c v = Inr v'" "map_of r' c = Some v'"
      using Cons.IH [OF step(3)] by blast
    with False step(4) show ?thesis by simp
  qed
qed

lemma resolve_absent:
  "source_absent kvs path \<Longrightarrow> resolve_value (JObj kvs) path = Inr (JStr [])"
  by (auto simp: source_absent_def resolve_value_def
           split: if_splits list.splits option.splits json.splits)

lemma normalize_empty: "normalize fmt c (JStr []) = Inr (JStr [])"
  by (simp add: normalize_def)

lemma distinct_columns: "distinct (map fst self_fields)"
  by (simp add: self_fields_def)

text \<open>
  C4. Every FlatRecord produced from a raw record (a dict) has exactly the eight output
  columns as its keys, in the order of the field map, and holds the empty string in the
  column of every source field that is absent.
\<close>

theorem flat_record_has_every_column:
  assumes "flat_record fmt_date (JObj kvs) = Inr r"
  shows "map fst r = output_columns \<and>
         (\<forall>(c, path) \<in> set self_fields.
            source_absent kvs path \<longrightarrow> map_of r c = Some (JStr []))"
proof
  from project_keys [OF assms [unfolded flat_record_def]]
  show "map fst r = output_columns"
    by (simp add: self_fields_def output_columns_def)
next
  show "\<forall>(c, path) \<in> set self_fields.
            source_absent kvs path \<longrightarrow> map_of r c = Some (JStr [])"
  proof (clarify)
    fix c path
    assume mem: "(c, path) \<in> set self_fields" and absent: "source_absent kvs path"
    from project_value [OF assms [unfolded flat_record_def] distinct_columns mem]
    obtain v v' where "resolve_value (JObj kvs) path = Inr v"
      "normalize fmt_date c v = Inr v'" "map_of r c = Some v'"
      by blast
    with resolve_absent [OF absent] show "map_of r c = Some (JStr [])"
      by (simp add: normalize_empty)
  qed
qed

theorem flat_record_has_every_column_witness:
  "flat_record (\<lambda>v. Inl TypeError) (JObj [(''name'', JStr ''Key Promoter''), (''downloads'', JInt 7)]) =
     Inr [(''id'', JStr []), (''name'', JStr ''Key Promoter''), (''downloads'', JInt 7),
          (''rating'', JStr []), (''pricing'', JStr []), (''vendor'', JStr []),
          (''tags'', JStr []), (''date'', JStr [])] \<and>
   map fst [(''id'', JStr []), (''name'', JStr ''Key Promoter''), (''downloads'', JInt 7),
          (''rating'', JStr []), (''pricing'', JStr []), (''vendor'', JStr []),
          (''tags'', JStr []), (''date'', JStr [])] = output_columns \<and>
   map_of [(''id'', JStr []), (''name'', JStr ''Key Promoter''), (''downloads'', JInt 7),
          (''rating'', JStr []), (''pricing'', JStr []), (''vendor'', JStr []),
          (''tags'', JStr []), (''date'', JStr [])] ''vendor'' = Some (JStr [])"
proof -
  have h: "flat_record (\<lambda>v. Inl TypeError)
      (JObj [(''name'', JStr ''Key Promoter''), (''downloads'', JInt 7)]) =
     Inr [(''id'', JStr []), (''name'', JStr ''Key Promoter''), (''downloads'', JInt 7),
          (''rating'', JStr []), (''pricing'', JStr []), (''vendor'', JStr []),
          (''tags'', JStr []), (''date'', JStr [])]"
    by code_simp
  have m: "(''vendor'', ''vendor_name'') \<in> set self_fields"
    by (simp add: self_fields_def)
  have a: "source_absent [(''name'', JStr ''Key Promoter''), (''downloads'', JInt 7)] ''vendor_name''"
    by code_simp
  from flat_record_has_every_column [OF h] m a h show ?thesis by blast
qed

text \<open>
  A record whose vendor is missing or a dict, whose tags are missing or a list of strings
  and whose \<^verbatim>\<open>cdate\<close> is missing or renders does produce a FlatRecord.
\<close>

lemma str_items_strings: "str_items (map JStr ws) = Inr ws"
  by (induction ws) simp_all

lemma split_vendor_name: "py_split (CHR ''_'') ''vendor_name'' = [''vendor'', ''name'']"
  by code_simp

lemma resolve_flat: "CHR ''_'' \<notin> set path \<Longrightarrow>
  resolve_value (JObj kvs) path = Inr (case map_of kvs path of None \<Rightarrow> JStr [] | Some v \<Rightarrow> v)"
  by (simp add: resolve_value_def)

lemma flat_record_produced:
  assumes vendor: "map_of kvs ''vendor'' = None \<or> (\<exists>sub. map_of kvs ''vendor'' = Some (JObj sub))"
    and tags: "map_of kvs ''tags'' = None \<or>
               (\<exists>ws. map_of kvs ''tags'' = Some (JList (map JStr ws)))"
    and cdate: "map_of kvs ''cdate'' = None \<or>
               (\<exists>v d. map_of kvs ''cdate'' = Some v \<and> fmt_date v = Inr d)"
  shows "\<exists>r. flat_record fmt_date (JObj kvs) = Inr r"
proof -
  have "\<exists>v1. resolve_value (JObj kvs) ''vendor_name'' = Inr v1"
    using vendor by (auto simp: resolve_value_def split_vendor_name)
  then obtain v1 where 1: "resolve_value (JObj kvs) ''vendor_name'' = Inr v1" by blast
  have "\<exists>v2. normalize fmt_date ''tags''
      (case map_of kvs ''tags'' of None \<Rightarrow> JStr [] | Some v \<Rightarrow> v) = Inr v2"
    using tags by (auto simp: normalize_def py_join_def str_items_strings)
  then obtain v2 where 2: "normalize fmt_date ''tags''
      (case map_of kvs ''tags'' of None \<Rightarrow> JStr [] | Some v \<Rightarrow> v) = Inr v2" by blast
  have "\<exists>v3. normalize fmt_date ''date''
      (case map_of kvs ''cdate'' of None \<Rightarrow> JStr [] | Some v \<Rightarrow> v) = Inr v3"
    using cdate by (auto simp: normalize_def)
  then obtain v3 where 3: "normalize fmt_date ''date''
      (case map_of kvs ''cdate'' of None \<Rightarrow> JStr [] | Some v \<Rightarrow> v) = Inr v3" by blast
  have n: "\<And>c v. c \<noteq> ''tags'' \<Longrightarrow> c \<noteq> ''date'' \<Longrightarrow> normalize fmt_date c v = Inr v"
    by (simp add: normalize_def)
  show ?thesis
    by (simp add: flat_record_def self_fields_def resolve_flat 1 2 3 n)
qed

section \<open>Resolving the vendor name\<close>

text \<open>
  C3. The first two resolutions are as the claim says. For \<^verbatim>\<open>{"vendor": null}\<close> the
  lookup \<^verbatim>\<open>plugin.get('vendor', {})\<close> returns \<^verbatim>\<open>None\<close> (the key is present, so the
  default is not used) and \<^verbatim>\<open>None.get\<close> raises an AttributeError, which no handler
  catches: the run of \<^verbatim>\<open>process_plugins\<close> ends with it and writes nothing.
\<close>

theorem vendor_null_raises:
  "resolve_value (JObj [(''vendor'', JObj [(''name'', JStr ''Acme'')])]) ''vendor_name'' =
     Inr (JStr ''Acme'') \<and>
   resolve_value (JObj [(''vendor'', JObj [])]) ''vendor_name'' = Inr (JStr []) \<and>
   resolve_value (JObj [(''vendor'', JNull)]) ''vendor_name'' = Inl AttributeError \<and>
   process_plugins
     (example_world [(''page_1.json'', Decoded (JObj [(''plugins'', JList [JObj [(''vendor'', JNull)]])]))])
     empty_sinks =
     (Raised AttributeError, \<lparr>csv_file = None, db_table = None, tlog = [LoadedInfo 1 1]\<rparr>)"
  by code_simp

section \<open>Snapshot files holding a bare list\<close>

text \<open>
  C1. A snapshot file holding a bare list, the shape \<^verbatim>\<open>json.dump(plugins, f)\<close> writes for a
  list of plugins: \<^verbatim>\<open>json_data.get\<close> raises an AttributeError on the list, the handler of
  the loading loop logs it and returns, and no record of the file reaches the transform.
\<close>

theorem bare_list_snapshot_aborts:
  "process_plugins (w\<lparr>snapshot_dir := [(''page_1.json'', Decoded (JList records))]\<rparr>) s =
     (Returned (), s\<lparr>tlog := tlog s @ [LoadError AttributeError]\<rparr>)"
  by (simp add: process_plugins_def glob_json_def is_json_name_def)

section \<open>Order of concatenation\<close>

lemma process_all_length: "process_all fmt xs = Inr rs \<Longrightarrow> length rs = length xs"
  by (induction xs arbitrary: rs) (auto split: sum.splits)

lemma process_all_append:
  "process_all fmt xs = Inr a \<Longrightarrow> process_all fmt ys = Inr b \<Longrightarrow>
   process_all fmt (xs @ ys) = Inr (a @ b)"
  by (induction xs arbitrary: a) (auto split: sum.splits)

lemma process_plugins_loaded:
  assumes "load_files (glob_json (snapshot_dir w)) [] = Inr all_plugins"
    and "process_all (date_format w) all_plugins = Inr processed_data"
  shows "process_plugins w s =
           write_db w processed_data
             (write_csv w processed_data
                (s\<lparr>tlog := tlog s @
                    [LoadedInfo (length all_plugins) (length (glob_json (snapshot_dir w)))]\<rparr>))"
  using assms by (simp add: process_plugins_def)

lemma write_db_csv_file: "csv_file (snd (write_db w rows s)) = csv_file s"
  by (simp add: write_db_def split: option.splits sum.splits)

lemma write_csv_ok:
  "csv_writable w \<Longrightarrow>
   csv_file (write_csv w rows s) = Some (map fst self_fields, map csv_cells rows)"
  by (simp add: write_csv_def)

text \<open>
  C6, amended. Two snapshot files in the wrapper shape with \<open>n\<close> records each, every
  record of which flattens: the CSV file holds \<open>2 * n\<close> rows, the rows of the file that
  the directory enumeration yields first before the rows of the other, in the order of the
  records within each file.
\<close>

theorem two_files_in_enumeration_order:
  assumes "glob_json (snapshot_dir w) =
             [(name1, Decoded (JObj kv1)), (name2, Decoded (JObj kv2))]"
    and "map_of kv1 ''plugins'' = Some (JList records1)"
    and "map_of kv2 ''plugins'' = Some (JList records2)"
    and "length records1 = n" and "length records2 = n"
    and "process_all (date_format w) records1 = Inr rows1"
    and "process_all (date_format w) records2 = Inr rows2"
    and "csv_writable w"
  shows "csv_file (snd (process_plugins w s)) =
           Some (map fst self_fields, map csv_cells rows1 @ map csv_cells rows2) \<and>
         length (map csv_cells rows1 @ map csv_cells rows2) = 2 * n \<and>
         length (map csv_cells rows1) = n"
proof -
  have load: "load_files (glob_json (snapshot_dir w)) [] = Inr (records1 @ records2)"
    using assms(1,2,3) by simp
  have flat: "process_all (date_format w) (records1 @ records2) = Inr (rows1 @ rows2)"
    using assms(6,7) by (rule process_all_append)
  have "csv_file (snd (process_plugins w s)) =
          Some (map fst self_fields, map csv_cells (rows1 @ rows2))"
    by (simp add: process_plugins_loaded [OF load flat] write_db_csv_file
          write_csv_ok [OF assms(8)])
  moreover have "length rows1 = n" and "length rows2 = n"
    using process_all_length [OF assms(6)] process_all_length [OF assms(7)] assms(4,5)
    by simp_all
  ultimately show ?thesis by simp
qed

text \<open>
  C6, as stated, fails: when the directory yields \<^verbatim>\<open>page_2.json\<close> before
  \<^verbatim>\<open>page_1.json\<close>, the records of page 2 (ids 3 and 4) come before those of page 1.
\<close>

theorem page2_enumerated_first:
  "csv_file (snd (process_plugins
      (example_world [(''page_2.json'', page2_file), (''page_1.json'', page1_file)]) empty_sinks)) =
     Some (output_columns,
       [[JInt 3, JStr [], JStr [], JStr [], JStr [], JStr [], JStr [], JStr []],
        [JInt 4, JStr [], JStr [], JStr [], JStr [], JStr [], JStr [], JStr []],
        [JInt 1, JStr [], JStr [], JStr [], JStr [], JStr [], JStr [], JStr []],
        [JInt 2, JStr [], JStr [], JStr [], JStr [], JStr [], JStr [], JStr []]])"
  by code_simp

theorem two_files_in_enumeration_order_witness:
  "csv_file (snd (process_plugins
      (example_world [(''page_1.json'', page1_file), (''page_2.json'', page2_file)]) empty_sinks)) =
     Some (output_columns,
       [[JInt 1, JStr [], JStr [], JStr [], JStr [], JStr [], JStr [], JStr []],
        [JInt 2, JStr [], JStr [], JStr [], JStr [], JStr [], JStr [], JStr []],
        [JInt 3, JStr [], JStr [], JStr [], JStr [], JStr [], JStr [], JStr []],
        [JInt 4, JStr [], JStr [], JStr [], JStr [], JStr [], JStr [], JStr []]])"
proof -
  let ?w = "example_world [(''page_1.json'', page1_file), (''page_2.json'', page2_file)]"
  let ?r1 = "[[(''id'', JInt 1), (''name'', JStr []), (''downloads'', JStr []),
          (''rating'', JStr []), (''pricing'', JStr []), (''vendor'', JStr []),
          (''tags'', JStr []), (''date'', JStr [])],
         [(''id'', JInt 2), (''name'', JStr []), (''downloads'', JStr []),
          (''rating'', JStr []), (''pricing'', JStr []), (''vendor'', JStr []),
          (''tags'', JStr []), (''date'', JStr [])]]"
  let ?r2 = "[[(''id'', JInt 3), (''name'', JStr []), (''downloads'', JStr []),
          (''rating'', JStr []), (''pricing'', JStr []), (''vendor'', JStr []),
          (''tags'', JStr []), (''date'', JStr [])],
         [(''id'', JInt 4), (''name'', JStr []), (''downloads'', JStr []),
          (''rating'', JStr []), (''pricing'', JStr []), (''vendor'', JStr []),
          (''tags'', JStr []), (''date'', JStr [])]]"
  have g: "glob_json (snapshot_dir ?w) =
      [(''page_1.json'', Decoded (JObj [(''plugins'', JList [JObj [(''id'', JInt 1)], JObj [(''id'', JInt 2)]])])),
       (''page_2.json'', Decoded (JObj [(''plugins'', JList [JObj [(''id'', JInt 3)], JObj [(''id'', JInt 4)]])]))]"
    by code_simp
  have k1: "map_of [(''plugins'', JList [JObj [(''id'', JInt 1)], JObj [(''id'', JInt 2)]])] ''plugins'' =
      Some (JList [JObj [(''id'', JInt 1)], JObj [(''id'', JInt 2)]])" by simp
  have k2: "map_of [(''plugins'', JList [JObj [(''id'', JInt 3)], JObj [(''id'', JInt 4)]])] ''plugins'' =
      Some (JList [JObj [(''id'', JInt 3)], JObj [(''id'', JInt 4)]])" by simp
  have l1: "length [JObj [(''id'', JInt 1)], JObj [(''id'', JInt 2)]] = 2" by simp
  have l2: "length [JObj [(''id'', JInt 3)], JObj [(''id'', JInt 4)]] = 2" by simp
  have p1: "process_all (date_format ?w) [JObj [(''id'', JInt 1)], JObj [(''id'', JInt 2)]] = Inr ?r1"
    by code_simp
  have p2: "process_all (date_format ?w) [JObj [(''id'', JInt 3)], JObj [(''id'', JInt 4)]] = Inr ?r2"
    by code_simp
  have c: "csv_writable ?w" by (simp add: example_world_def)
  have cells: "map csv_cells ?r1 @ map csv_cells ?r2 =
       [[JInt 1, JStr [], JStr [], JStr [], JStr [], JStr [], JStr [], JStr []],
        [JInt 2, JStr [], JStr [], JStr [], JStr [], JStr [], JStr [], JStr []],
        [JInt 3, JStr [], JStr [], JStr [], JStr [], JStr [], JStr [], JStr []],
        [JInt 4, JStr [], JStr [], JStr [], JStr [], JStr [], JStr [], JStr []]]"
    by code_simp
  have cols: "map fst self_fields = output_columns" by code_simp
  from two_files_in_enumeration_order [OF g k1 k2 l1 l2 p1 p2 c, of empty_sinks]
  show ?thesis by (simp only: cells cols)
qed

section \<open>A snapshot file that does not decode\<close>

lemma load_files_malformed:
  "(name, Malformed) \<in> set dir \<Longrightarrow> \<exists>e. load_files dir all_plugins = Inl e"
proof (induction dir all_plugins rule: load_files.induct)
  case (1 all_plugins)
  then show ?case by simp
next
  case (2 name' rest all_plugins)
  show ?case by simp
next
  case (3 name' rest all_plugins)
  show ?case by simp
next
  case (4 name' json_data rest all_plugins)
  then show ?case by (auto split: sum.splits)
qed

text \<open>
  C7. When one of the snapshot files is not valid JSON, \<^verbatim>\<open>process_plugins\<close> returns after
  logging one loading error: the CSV file and the table are as they were before the run.
\<close>

theorem decode_failure_leaves_sinks_untouched:
  assumes "(name, Malformed) \<in> set (glob_json (snapshot_dir w))"
  shows "fst (process_plugins w s) = Returned () \<and>
         csv_file (snd (process_plugins w s)) = csv_file s \<and>
         db_table (snd (process_plugins w s)) = db_table s \<and>
         (\<exists>e. tlog (snd (process_plugins w s)) = tlog s @ [LoadError e])"
proof -
  from load_files_malformed [OF assms]
  obtain e where "load_files (glob_json (snapshot_dir w)) [] = Inl e" by blast
  then have "process_plugins w s = (Returned (), s\<lparr>tlog := tlog s @ [LoadError e]\<rparr>)"
    by (simp add: process_plugins_def)
  then show ?thesis by simp
qed

theorem decode_failure_leaves_sinks_untouched_witness:
  "fst (process_plugins
          (example_world [(''page_1.json'', page1_file), (''page_2.json'', Malformed)])
          stale_sinks) = Returned () \<and>
   csv_file (snd (process_plugins
          (example_world [(''page_1.json'', page1_file), (''page_2.json'', Malformed)])
          stale_sinks)) = Some ([''old''], [[JInt 0]]) \<and>
   db_table (snd (process_plugins
          (example_world [(''page_1.json'', page1_file), (''page_2.json'', Malformed)])
          stale_sinks)) = None"
proof -
  have h: "(''page_2.json'', Malformed) \<in> set (glob_json (snapshot_dir
             (example_world [(''page_1.json'', page1_file), (''page_2.json'', Malformed)])))"
    by code_simp
  from decode_failure_leaves_sinks_untouched [OF h, of stale_sinks]
  show ?thesis by (simp add: stale_sinks_def)
qed

section \<open>The two sinks\<close>

lemma csv_failure_logged_db_attempted:
  "\<not> csv_writable w \<Longrightarrow>
   write_db w rows (write_csv w rows s) =
     write_db w rows (s\<lparr>tlog := tlog s @ [CsvError OSError]\<rparr>)"
  by (simp add: write_csv_def)

lemma write_db_ok:
  assumes "db_connectable w" and "db_table s = None" and "insert_rows rows = Inr tuples"
  shows "write_db w rows s =
           (Returned (), s\<lparr>db_table := Some tuples, tlog := tlog s @ [DbWritten (length rows)]\<rparr>)"
  using assms by (simp add: write_db_def)

lemma insert_rows_length: "insert_rows rows = Inr tuples \<Longrightarrow> length tuples = length rows"
  by (induction rows arbitrary: tuples) (auto split: sum.splits option.splits)

lemma db_failure_keeps_csv:
  "csv_writable w \<Longrightarrow>
   csv_file (snd (write_db w rows (write_csv w rows s))) =
     Some (map fst self_fields, map csv_cells rows)"
  by (simp add: write_db_csv_file write_csv_ok)

lemma db_failure_not_logged:
  "fst (write_db w rows s) = Raised e \<Longrightarrow> tlog (snd (write_db w rows s)) = tlog s"
  by (auto simp: write_db_def split: option.splits sum.splits if_splits)

text \<open>
  C8. The table \<^verbatim>\<open>plugins\<close> already exists, so \<^verbatim>\<open>CREATE TABLE plugins\<close> fails. The CSV
  file has been written in full; the failure of the relational sink is not logged, it
  leaves \<^verbatim>\<open>process_plugins\<close> as an exception.
\<close>

theorem db_failure_escapes_unlogged:
  "process_plugins (example_world [(''page_1.json'', page1_file)])
     \<lparr>csv_file = None, db_table = Some [], tlog = []\<rparr> =
   (Raised OperationalError,
    \<lparr>csv_file = Some (output_columns,
        [[JInt 1, JStr [], JStr [], JStr [], JStr [], JStr [], JStr [], JStr []],
         [JInt 2, JStr [], JStr [], JStr [], JStr [], JStr [], JStr [], JStr []]]),
      db_table = Some [],
      tlog = [LoadedInfo 2 1, CsvWritten 2]\<rparr>)"
  by code_simp

end
